theory Spec2Isabelle
  imports Main "HOL-Library.Word"
begin

unbundle bit_operations_syntax

section \<open>The memory arena and the growth primitive\<close>

text \<open>
  The allocator of \<^verbatim>\<open>mm.c\<close> works on one contiguous arena owned by memlib. Addresses are
  byte addresses (\<^typ>\<open>int\<close>); every access of the allocator is a 4-byte
  \<^verbatim>\<open>unsigned int\<close> access, so the arena is a map from the address of a word to its
  32-bit content. \<open>mem_heap\<close> is the first byte of the arena, \<open>mem_brk\<close> the first byte
  past the heap, \<open>mem_max_addr\<close> the first byte past the arena. \<open>heap_startp\<close> is the
  static variable of \<^verbatim>\<open>mm.c\<close>.
\<close>

record heap_state =
  mem :: "int \<Rightarrow> 32 word"
  mem_heap :: int
  mem_brk :: int
  mem_max_addr :: int
  heap_startp :: int

text \<open>
  What C leaves undefined or answers by killing the process is a value of the model:
  \<open>OutOfArena\<close> is a 4-byte access that is not inside the arena or not word-aligned in it,
  \<open>AssertFailed\<close> is a failed \<^verbatim>\<open>assert\<close>. An access past \<open>mem_brk\<close> that is still
  inside the arena reads or writes memlib's array and goes through.
\<close>

datatype fault = OutOfArena | AssertFailed

definition then_res :: "fault + 'a \<Rightarrow> ('a \<Rightarrow> fault + 'b) \<Rightarrow> fault + 'b" where
  "then_res r f = (case r of Inl e \<Rightarrow> Inl e | Inr x \<Rightarrow> f x)"

definition in_arena :: "heap_state \<Rightarrow> int \<Rightarrow> bool" where
  "in_arena st p \<longleftrightarrow>
     mem_heap st \<le> p \<and> p + 4 \<le> mem_max_addr st \<and> (p - mem_heap st) mod 4 = 0"

text \<open>
  Modelled from the spec: the growth primitive \<open>heap_grow\<close> (memlib's \<^verbatim>\<open>mem_sbrk\<close>),
  which is not part of \<^verbatim>\<open>mm.c\<close>. It extends the managed region by \<open>n_bytes\<close> and returns
  the address of the start of the new region, or a failure signal (\<open>None\<close>, the
  \<^verbatim>\<open>(void *)-1\<close> of the source) if no more memory is available; it never shrinks, so a
  negative request fails too.
\<close>

definition mem_sbrk :: "int \<Rightarrow> heap_state \<Rightarrow> int option \<times> heap_state" where
  "mem_sbrk incr st =
     (if incr < 0 \<or> mem_brk st + incr > mem_max_addr st then (None, st)
      else (Some (mem_brk st), st\<lparr>mem_brk := mem_brk st + incr\<rparr>))"

text \<open>
  Modelled from the spec: the lower one of the \<open>heap_bounds\<close> (memlib's
  \<^verbatim>\<open>mem_heap_lo\<close>), the address of the first byte of the managed region.
\<close>

definition mem_heap_lo :: "heap_state \<Rightarrow> int" where
  "mem_heap_lo st = mem_heap st"

text \<open>
  Modelled from the spec: the upper one of the \<open>heap_bounds\<close> (memlib's
  \<^verbatim>\<open>mem_heap_hi\<close>). The bounds are inclusive: it is the address of the last byte of the
  managed region.
\<close>

definition mem_heap_hi :: "heap_state \<Rightarrow> int" where
  "mem_heap_hi st = mem_brk st - 1"

section \<open>The macros of mm.c\<close>

definition ALIGN :: "64 word \<Rightarrow> 64 word" where
  "ALIGN n = (n + 7) AND NOT 7"

definition PACK :: "32 word \<Rightarrow> 32 word \<Rightarrow> 32 word" where
  "PACK n alloc = n OR alloc"

definition GET :: "heap_state \<Rightarrow> int \<Rightarrow> fault + 32 word" where
  "GET st p = (if in_arena st p then Inr (mem st p) else Inl OutOfArena)"

definition PUT :: "heap_state \<Rightarrow> int \<Rightarrow> 32 word \<Rightarrow> fault + heap_state" where
  "PUT st p val = (if in_arena st p then Inr (st\<lparr>mem := (mem st)(p := val)\<rparr>) else Inl OutOfArena)"

definition GET_SIZE :: "heap_state \<Rightarrow> int \<Rightarrow> fault + 32 word" where
  "GET_SIZE st p = then_res (GET st p) (\<lambda>w. Inr (w AND NOT 7))"

definition GET_ALLOC :: "heap_state \<Rightarrow> int \<Rightarrow> fault + 32 word" where
  "GET_ALLOC st p = then_res (GET st p) (\<lambda>w. Inr (w AND 1))"

definition HDRP :: "int \<Rightarrow> int" where
  "HDRP bp = bp - 4"

definition FTRP :: "heap_state \<Rightarrow> int \<Rightarrow> fault + int" where
  "FTRP st bp = then_res (GET_SIZE st (HDRP bp)) (\<lambda>sz. Inr (bp + uint sz - 8))"

definition NEXT_BLKP :: "heap_state \<Rightarrow> int \<Rightarrow> fault + int" where
  "NEXT_BLKP st bp = then_res (GET_SIZE st (HDRP bp)) (\<lambda>sz. Inr (bp + uint sz))"

definition PREV_BLKP :: "heap_state \<Rightarrow> int \<Rightarrow> fault + int" where
  "PREV_BLKP st bp = then_res (GET_SIZE st (bp - 8)) (\<lambda>sz. Inr (bp - uint sz))"

section \<open>The operations of mm.c\<close>

text \<open>\<^verbatim>\<open>mm_init\<close>: returns \<open>-1\<close> when the growth primitive fails, \<open>0\<close> otherwise.\<close>

definition mm_init :: "heap_state \<Rightarrow> fault + (int \<times> heap_state)" where
  "mm_init st =
     (case mem_sbrk (4 * 4) st of
        (None, st0) \<Rightarrow> Inr (- 1, st0)
      | (Some _, st0) \<Rightarrow>
          (let heap_start = mem_heap_lo st0 in
           then_res (PUT st0 heap_start 0) (\<lambda>st1.
           then_res (PUT st1 (heap_start + 4) (PACK 8 1)) (\<lambda>st2.
           then_res (PUT st2 (heap_start + 8) (PACK 8 1)) (\<lambda>st3.
           then_res (PUT st3 (heap_start + 12) (PACK 0 1)) (\<lambda>st4.
           Inr (0, st4\<lparr>heap_startp := heap_start + 8\<rparr>)))))))"

text \<open>
  \<^verbatim>\<open>split\<close>: \<open>free_size\<close>, \<open>newsize\<close> and \<open>remaining\<close> are \<^verbatim>\<open>int\<close>; the subtraction is
  that of the machine (two's complement, 32 bits).
\<close>

definition split :: "int \<Rightarrow> 32 word \<Rightarrow> heap_state \<Rightarrow> fault + heap_state" where
  "split bp newsize st =
     then_res (GET_SIZE st (HDRP bp)) (\<lambda>free_size.
     (let remaining = free_size - newsize in
      then_res (PUT st (HDRP bp) (PACK newsize 1)) (\<lambda>st1.
      then_res (FTRP st1 bp) (\<lambda>f1.
      then_res (PUT st1 f1 (PACK newsize 1)) (\<lambda>st2.
      then_res (NEXT_BLKP st2 bp) (\<lambda>n1.
      then_res (PUT st2 (HDRP n1) (PACK remaining 0)) (\<lambda>st3.
      then_res (NEXT_BLKP st3 bp) (\<lambda>n2.
      then_res (FTRP st3 n2) (\<lambda>f2.
      PUT st3 f2 (PACK remaining 0))))))))))"

text \<open>
  \<^verbatim>\<open>coalesce\<close>: looks at the predecessor only. The \<^verbatim>\<open>printf\<close> on the merge path writes
  to the standard output and not to the heap; it is left out.
\<close>

definition coalesce :: "int \<Rightarrow> heap_state \<Rightarrow> fault + (int \<times> heap_state)" where
  "coalesce bp st =
     then_res (PREV_BLKP st bp) (\<lambda>prev.
     then_res (GET_ALLOC st (HDRP prev)) (\<lambda>a.
     if a \<noteq> 0 then Inr (bp, st)
     else
       then_res (GET_SIZE st (HDRP bp)) (\<lambda>s1.
       then_res (GET_SIZE st (HDRP prev)) (\<lambda>s2.
       (let newsize = s1 + s2 in
        then_res (PUT st (HDRP prev) (PACK newsize 0)) (\<lambda>st1.
        then_res (FTRP st1 bp) (\<lambda>f.
        then_res (PUT st1 f (PACK newsize 0)) (\<lambda>st2.
        Inr (prev, st2)))))))))"

text \<open>
  \<^verbatim>\<open>extend_heap\<close>, in two parts. \<open>extend_size\<close> is lines 165 to 171: the size that
  will be asked of the growth primitive. \<open>size_last < newsize\<close> compares two \<^verbatim>\<open>int\<close>s.
  \<open>extend_heap\<close> returns the null pointer \<open>0\<close> when the growth primitive fails.
\<close>

definition extend_size :: "32 word \<Rightarrow> heap_state \<Rightarrow> fault + 32 word" where
  "extend_size newsize st =
     (let epilogue_bp = mem_heap_hi st - 3 in
      then_res (PREV_BLKP st epilogue_bp) (\<lambda>last.
      then_res (GET_ALLOC st (HDRP last)) (\<lambda>a.
      if a = 0 then
        then_res (GET_SIZE st (HDRP last)) (\<lambda>size_last.
        if sint size_last < sint newsize then Inr (newsize - size_last)
        else Inl AssertFailed)
      else Inr newsize)))"

definition extend_heap :: "32 word \<Rightarrow> heap_state \<Rightarrow> fault + (int \<times> heap_state)" where
  "extend_heap newsize0 st =
     then_res (extend_size newsize0 st) (\<lambda>newsize.
     (case mem_sbrk (sint newsize) st of
        (None, st0) \<Rightarrow> Inr (0, st0)
      | (Some bp, st0) \<Rightarrow>
          then_res (PUT st0 (HDRP bp) (PACK newsize 0)) (\<lambda>st1.
          then_res (FTRP st1 bp) (\<lambda>f.
          then_res (PUT st1 f (PACK newsize 0)) (\<lambda>st2.
          then_res (NEXT_BLKP st2 bp) (\<lambda>n.
          then_res (PUT st2 n (PACK 0 1)) (\<lambda>st3.
          coalesce bp st3)))))))"

text \<open>
  The block found by the search of \<^verbatim>\<open>mm_malloc\<close> is placed by lines 118 to 121.
\<close>

definition place_fit :: "32 word \<Rightarrow> int \<Rightarrow> heap_state \<Rightarrow> fault + (int \<times> heap_state)" where
  "place_fit newsize current st =
     then_res (GET_SIZE st (HDRP current)) (\<lambda>sz.
     then_res (if sz \<noteq> newsize then split current newsize st else Inr st) (\<lambda>st1.
     then_res (PUT st1 (HDRP current) (PACK newsize 1)) (\<lambda>st2.
     then_res (FTRP st2 current) (\<lambda>f.
     then_res (PUT st2 f (PACK newsize 1)) (\<lambda>st3.
     Inr (current, st3))))))"

text \<open>
  The search loop of \<^verbatim>\<open>mm_malloc\<close>, lines 116 to 124: \<open>Some p\<close> when the loop returns
  \<open>p\<close> from the function, \<open>None\<close> when it runs to a header of size 0. The comparison
  \<^verbatim>\<open>GET_SIZE(HDRP(current)) >= newsize\<close> is between an \<^verbatim>\<open>unsigned int\<close> and an
  \<^verbatim>\<open>int\<close>, hence unsigned.
\<close>

function malloc_loop :: "32 word \<Rightarrow> int \<Rightarrow> heap_state \<Rightarrow> fault + (int option \<times> heap_state)" where
  "malloc_loop newsize current st =
     (case GET_SIZE st (HDRP current) of
        Inl e \<Rightarrow> Inl e
      | Inr sz \<Rightarrow>
          if sz = 0 then Inr (None, st)
          else
            (case GET_ALLOC st (HDRP current) of
               Inl e \<Rightarrow> Inl e
             | Inr a \<Rightarrow>
                 if a = 0 \<and> newsize \<le> sz then
                   then_res (place_fit newsize current st) (\<lambda>(p, st1). Inr (Some p, st1))
                 else malloc_loop newsize (current + uint sz) st))"
  by pat_completeness auto
termination
proof (relation "measure (\<lambda>(newsize, current, st). nat (mem_max_addr st + 1 - current))")
  show "wf (measure (\<lambda>(newsize, current, st). nat (mem_max_addr st + 1 - current)))"
    by simp
next
  fix newsize :: "32 word" and current :: int and st :: heap_state and sz a :: "32 word"
  assume g: "GET_SIZE st (HDRP current) = Inr sz" and nz: "sz \<noteq> 0"
  from g have "in_arena st (HDRP current)"
    by (simp add: GET_SIZE_def GET_def then_res_def split: if_splits)
  then have "current \<le> mem_max_addr st"
    by (simp add: in_arena_def HDRP_def)
  moreover from nz have "0 < uint sz"
    by (simp add: word_neq_0_conv word_less_def)
  ultimately show "((newsize, current + uint sz, st), (newsize, current, st))
      \<in> measure (\<lambda>(newsize, current, st). nat (mem_max_addr st + 1 - current))"
    by simp
qed

declare malloc_loop.simps [simp del]

text \<open>
  \<^verbatim>\<open>mm_malloc\<close>: \<open>int newsize = ALIGN(size + 8)\<close> keeps the low 32 bits of a
  \<^verbatim>\<open>size_t\<close>. The result is the payload pointer, \<open>0\<close> for \<^verbatim>\<open>NULL\<close>.
\<close>

definition malloc_newsize :: "64 word \<Rightarrow> 32 word" where
  "malloc_newsize n = ucast (ALIGN (n + 8))"

definition mm_malloc :: "64 word \<Rightarrow> heap_state \<Rightarrow> fault + (int \<times> heap_state)" where
  "mm_malloc n st =
     (let newsize = malloc_newsize n in
      then_res (malloc_loop newsize (heap_startp st) st) (\<lambda>(found, st0).
      case found of
        Some current \<Rightarrow> Inr (current, st0)
      | None \<Rightarrow>
          then_res (extend_heap newsize st0) (\<lambda>(bp, st1).
          if bp = 0 then Inr (0, st1)
          else
            then_res (PUT st1 (HDRP bp) (PACK newsize 1)) (\<lambda>st2.
            then_res (FTRP st2 bp) (\<lambda>f.
            then_res (PUT st2 f (PACK newsize 1)) (\<lambda>st3.
            Inr (bp, st3)))))))"

definition mm_free :: "int \<Rightarrow> heap_state \<Rightarrow> fault + heap_state" where
  "mm_free ptr st =
     then_res (GET_SIZE st (HDRP ptr)) (\<lambda>sz.
     then_res (PUT st (HDRP ptr) (PACK sz 0)) (\<lambda>st1.
     then_res (FTRP st1 ptr) (\<lambda>f.
     then_res (PUT st1 f (PACK sz 0)) (\<lambda>st2.
     then_res (coalesce ptr st2) (\<lambda>(_, st3). Inr st3)))))"

text \<open>
  \<^verbatim>\<open>mm_realloc\<close> has an empty body: it reads and writes nothing, so the heap after the
  call is the heap before it. The function has no \<^verbatim>\<open>return\<close> statement: the value its
  caller reads is not determined by the source, and it is not part of the model.
\<close>

definition mm_realloc :: "int \<Rightarrow> 64 word \<Rightarrow> heap_state \<Rightarrow> fault + heap_state" where
  "mm_realloc ptr n st = Inr st"

section \<open>The block sequence\<close>

text \<open>
  The traversal of \<^verbatim>\<open>print_heap\<close> (and of the search loop): from a payload pointer, block
  by block, up to the first header of size 0. It gives the payload pointers of the blocks
  in address order, \<open>None\<close> when the walk leaves the arena.
\<close>

function heap_blocks :: "heap_state \<Rightarrow> int \<Rightarrow> int list option" where
  "heap_blocks st bp =
     (case GET_SIZE st (HDRP bp) of
        Inl e \<Rightarrow> None
      | Inr sz \<Rightarrow>
          if sz = 0 then Some []
          else map_option (Cons bp) (heap_blocks st (bp + uint sz)))"
  by pat_completeness auto
termination
proof (relation "measure (\<lambda>(st, bp). nat (mem_max_addr st + 1 - bp))")
  show "wf (measure (\<lambda>(st, bp). nat (mem_max_addr st + 1 - bp)))"
    by simp
next
  fix st :: heap_state and bp :: int and sz :: "32 word"
  assume g: "GET_SIZE st (HDRP bp) = Inr sz" and nz: "sz \<noteq> 0"
  from g have "in_arena st (HDRP bp)"
    by (simp add: GET_SIZE_def GET_def then_res_def split: if_splits)
  then have "bp \<le> mem_max_addr st"
    by (simp add: in_arena_def HDRP_def)
  moreover from nz have "0 < uint sz"
    by (simp add: word_neq_0_conv word_less_def)
  ultimately show "((st, bp + uint sz), (st, bp))
      \<in> measure (\<lambda>(st, bp). nat (mem_max_addr st + 1 - bp))"
    by simp
qed

declare heap_blocks.simps [simp del]

definition is_free :: "heap_state \<Rightarrow> int \<Rightarrow> bool" where
  "is_free st bp \<longleftrightarrow> GET_ALLOC st (HDRP bp) = Inr 0"

text \<open>Two consecutive blocks of a block sequence that are both free.\<close>

fun adjacent_free :: "heap_state \<Rightarrow> int list \<Rightarrow> bool" where
  "adjacent_free st (b1 # b2 # bs) =
     ((is_free st b1 \<and> is_free st b2) \<or> adjacent_free st (b2 # bs))"
| "adjacent_free st _ = False"

text \<open>
  The needed size in the words of the specification: the requested bytes plus the 8 bytes
  of header and footer, rounded up to the alignment unit, as a number. A free block fits
  a needed size when it is free and at least that large.
\<close>

definition spec_needed_size :: "64 word \<Rightarrow> int" where
  "spec_needed_size n = ((uint n + 8 + 7) div 8) * 8"

definition fits :: "heap_state \<Rightarrow> int \<Rightarrow> int \<Rightarrow> bool" where
  "fits st needed bp =
     (case GET st (HDRP bp) of
        Inl e \<Rightarrow> False
      | Inr w \<Rightarrow> w AND 1 = 0 \<and> needed \<le> uint (w AND NOT 7))"

text \<open>
  The minimum block size in the words of the specification (4.2): large enough to hold
  header and footer, plus enough payload to later host a header and a footer, that is
  16 bytes. The source has no such constant and no such test.
\<close>

definition spec_min_block_size :: int where
  "spec_min_block_size = (4 + 4) + (4 + 4)"

section \<open>Concrete heaps\<close>

text \<open>
  An arena as \<^verbatim>\<open>mem_init\<close> of memlib leaves it, with an empty heap: here 4096 bytes at
  address 4096, all zero.
\<close>

definition zero_arena :: heap_state where
  "zero_arena = \<lparr>mem = (\<lambda>_. 0), mem_heap = 4096, mem_brk = 4096, mem_max_addr = 8192,
     heap_startp = 0\<rparr>"

text \<open>The arena after \<^verbatim>\<open>mm_init()\<close>.\<close>

definition init_heap :: heap_state where
  "init_heap = \<lparr>mem = (\<lambda>_. 0)(4100 := 9, 4104 := 9, 4108 := 1), mem_heap = 4096,
     mem_brk = 4112, mem_max_addr = 8192, heap_startp = 4104\<rparr>"

text \<open>After \<^verbatim>\<open>mm_init(); p = mm_malloc(16)\<close>: one allocated block of 24 bytes at \<open>p = 4112\<close>.\<close>

definition one_block_heap :: heap_state where
  "one_block_heap = \<lparr>mem = (\<lambda>_. 0)(4100 := 9, 4104 := 9, 4108 := 25, 4128 := 25, 4136 := 1),
     mem_heap = 4096, mem_brk = 4136, mem_max_addr = 8192, heap_startp = 4104\<rparr>"

text \<open>After \<^verbatim>\<open>mm_init(); p = mm_malloc(16); mm_free(p)\<close>: one free block of 24 bytes.\<close>

definition freed_heap :: heap_state where
  "freed_heap = \<lparr>mem = (\<lambda>_. 0)(4100 := 9, 4104 := 9, 4108 := 24, 4128 := 24, 4136 := 1),
     mem_heap = 4096, mem_brk = 4136, mem_max_addr = 8192, heap_startp = 4104\<rparr>"

text \<open>
  After \<^verbatim>\<open>mm_init()\<close> in an arena of 16 bytes: the growth primitive has nothing left
  to give.
\<close>

definition full_heap :: heap_state where
  "full_heap = \<lparr>mem = (\<lambda>_. 0)(4100 := 9, 4104 := 9, 4108 := 1), mem_heap = 4096,
     mem_brk = 4112, mem_max_addr = 4112, heap_startp = 4104\<rparr>"

text \<open>
  After \<^verbatim>\<open>mm_init(); p = mm_malloc(16); q = mm_malloc(16); mm_free(q)\<close>: the block at
  \<open>p = 4112\<close> is allocated and its successor at \<open>q = 4136\<close> is free.
\<close>

definition free_order_run :: "fault + (int \<times> int \<times> heap_state)" where
  "free_order_run =
     then_res (mm_init zero_arena) (\<lambda>(_, s1).
     then_res (mm_malloc 16 s1) (\<lambda>(p, s2).
     then_res (mm_malloc 16 s2) (\<lambda>(q, s3).
     then_res (mm_free q s3) (\<lambda>s4.
     Inr (p, q, s4)))))"

definition succ_free_heap :: heap_state where
  "succ_free_heap = \<lparr>mem = (\<lambda>_. 0)(4100 := 9, 4104 := 9, 4108 := 25, 4128 := 25, 4132 := 24,
       4136 := 1, 4152 := 24, 4160 := 1),
     mem_heap = 4096, mem_brk = 4160, mem_max_addr = 8192, heap_startp = 4104\<rparr>"

text \<open>The same heap after \<^verbatim>\<open>mm_free(p)\<close>.\<close>

definition two_free_heap :: heap_state where
  "two_free_heap = \<lparr>mem = (\<lambda>_. 0)(4100 := 9, 4104 := 9, 4108 := 24, 4128 := 24, 4132 := 24,
       4136 := 1, 4152 := 24, 4160 := 1),
     mem_heap = 4096, mem_brk = 4160, mem_max_addr = 8192, heap_startp = 4104\<rparr>"

text \<open>
  The first four calls of \<^verbatim>\<open>main\<close>:
  \<^verbatim>\<open>mm_init(); p = mm_malloc(16); mm_free(p); mm_malloc(8)\<close>. The heap then ends with a
  free block of 8 bytes at 4128.
\<close>

definition main_run :: "fault + (int \<times> int \<times> heap_state)" where
  "main_run =
     then_res (mm_init zero_arena) (\<lambda>(_, s1).
     then_res (mm_malloc 16 s1) (\<lambda>(p, s2).
     then_res (mm_free p s2) (\<lambda>s3.
     then_res (mm_malloc 8 s3) (\<lambda>(q, s4).
     Inr (p, q, s4)))))"

definition free_tail_heap :: heap_state where
  "free_tail_heap = \<lparr>mem = (\<lambda>_. 0)(4100 := 9, 4104 := 9, 4108 := 17, 4120 := 17, 4124 := 8,
       4128 := 8, 4136 := 1),
     mem_heap = 4096, mem_brk = 4136, mem_max_addr = 8192, heap_startp = 4104\<rparr>"

text \<open>The same heap after \<^verbatim>\<open>extend_heap(16)\<close>.\<close>

definition grown_heap :: heap_state where
  "grown_heap = \<lparr>mem = (\<lambda>_. 0)(4100 := 9, 4104 := 9, 4108 := 17, 4120 := 17, 4124 := 24,
       4128 := 8, 4132 := 16, 4136 := 1, 4144 := 24, 4152 := 1),
     mem_heap = 4096, mem_brk = 4152, mem_max_addr = 8192, heap_startp = 4104\<rparr>"

text \<open>
  After \<^verbatim>\<open>mm_init(); a = mm_malloc(0); b = mm_malloc(0); mm_free(a); c = mm_malloc(16);
  mm_malloc(0)\<close>: every block is allocated and the arena has room left.
\<close>

definition zero_size_run :: "fault + heap_state" where
  "zero_size_run =
     then_res (mm_init zero_arena) (\<lambda>(_, s1).
     then_res (mm_malloc 0 s1) (\<lambda>(a, s2).
     then_res (mm_malloc 0 s2) (\<lambda>(b, s3).
     then_res (mm_free a s3) (\<lambda>s4.
     then_res (mm_malloc 16 s4) (\<lambda>(c, s5).
     then_res (mm_malloc 0 s5) (\<lambda>(e, s6).
     Inr s6))))))"

definition stale_tag_heap :: heap_state where
  "stale_tag_heap = \<lparr>mem = (\<lambda>_. 0)(4100 := 9, 4104 := 9, 4108 := 9, 4112 := 9, 4116 := 9,
       4120 := 9, 4124 := 25, 4128 := 1, 4136 := 16, 4144 := 25),
     mem_heap = 4096, mem_brk = 4144, mem_max_addr = 8192, heap_startp = 4104\<rparr>"

section \<open>Bits of a tag word\<close>

lemma minus8_mask: "(- 8 :: 'a::len word) = NOT (mask 3)"
  using minus_exp_eq_not_mask [of 3, where ?'a = "'a word"] by simp

lemma seven_mask: "(7 :: 'a::len word) = mask 3"
  by (simp add: mask_eq_exp_minus_1)

lemma size_mask_low [simp]: "(w AND - 8) AND 7 = (0 :: 32 word)"
  unfolding minus8_mask seven_mask by (rule bit_word_eqI) (auto simp: bit_simps)

lemma size_mask_alloc [simp]: "(w AND - 8) AND 1 = (0 :: 32 word)"
  unfolding minus8_mask by (rule bit_word_eqI) (auto simp: bit_simps)

lemma PACK_0 [simp]: "PACK n 0 = n"
  by (simp add: PACK_def)

lemma PACK_1_alloc [simp]: "PACK n 1 AND 1 = 1"
  by (simp add: PACK_def word_ao_dist)

lemma mask_idem: 
  assumes "n AND 7 = 0" shows "n AND - 8 = (n :: 32 word)"
proof -
  have "n AND NOT (mask 3) = n"
  proof (rule bit_word_eqI)
    fix k assume "k < LENGTH(32)"
    from assms have "bit (n AND mask 3) k = bit (0 :: 32 word) k" by (simp add: seven_mask)
    with \<open>k < LENGTH(32)\<close> have "\<not> (bit n k \<and> k < 3)"
      by (simp add: bit_simps)
    with \<open>k < LENGTH(32)\<close> show "bit (n AND NOT (mask 3)) k = bit n k"
      by (auto simp: bit_simps)
  qed
  then show ?thesis by (simp add: minus8_mask)
qed

lemma PACK_1_size: 
  assumes "n AND 7 = 0" shows "PACK n 1 AND - 8 = (n :: 32 word)"
proof -
  have "(1 :: 32 word) AND - 8 = 0" by simp
  then show ?thesis
    using mask_idem [OF assms] by (simp add: PACK_def word_ao_dist)
qed

lemma uint_aligned: 
  assumes "n AND 7 = 0" shows "uint (n :: 32 word) mod 8 = 0"
proof -
  have "take_bit 3 n = n AND 7"
    by (simp add: take_bit_eq_mask seven_mask)
  with assms have "uint (take_bit 3 n) = 0" by simp
  then show ?thesis
    by (simp add: unsigned_take_bit_eq take_bit_eq_mod uint_mod)
qed

lemma aligned_ge_8: 
  assumes "n AND 7 = 0" "n \<noteq> 0" shows "8 \<le> uint (n :: 32 word)"
proof -
  have "uint n mod 8 = 0" using assms(1) by (rule uint_aligned)
  moreover have "0 < uint n" using assms(2) by (simp add: word_neq_0_conv word_less_def)
  ultimately show ?thesis by presburger
qed

lemma ALIGN_low: "(ucast (ALIGN m) :: 32 word) AND 7 = 0"
  unfolding ALIGN_def seven_mask 
  apply (rule bit_word_eqI)
  apply (simp add: bit_simps minus8_mask)
  done

lemma newsize_aligned: "malloc_newsize n AND 7 = 0"
  by (simp add: malloc_newsize_def ALIGN_low)

section \<open>Reading and writing the arena\<close>

lemma in_arena_mem_update [simp]: "in_arena (st\<lparr>mem := m\<rparr>) p = in_arena st p"
  by (simp add: in_arena_def)

lemma in_arena_brk_update [simp]: "in_arena (st\<lparr>mem_brk := b\<rparr>) p = in_arena st p"
  by (simp add: in_arena_def)

lemma then_res_Inr [simp]: "then_res (Inr x) f = f x"
  by (simp add: then_res_def)

lemma then_res_Inl [simp]: "then_res (Inl e) f = Inl e"
  by (simp add: then_res_def)

lemma then_res_eq_Inr: "then_res r f = Inr y \<longleftrightarrow> (\<exists>x. r = Inr x \<and> f x = Inr y)"
  by (cases r) simp_all

lemma GET_SIZE_Inr:
  "GET_SIZE st p = Inr s \<longleftrightarrow> in_arena st p \<and> s = mem st p AND NOT 7"
  by (auto simp: GET_SIZE_def GET_def)

lemma GET_ALLOC_Inr:
  "GET_ALLOC st p = Inr a \<longleftrightarrow> in_arena st p \<and> a = mem st p AND 1"
  by (auto simp: GET_ALLOC_def GET_def)

lemma GET_SIZE_arena: "in_arena st p \<Longrightarrow> GET_SIZE st p = Inr (mem st p AND NOT 7)"
  by (simp add: GET_SIZE_def GET_def)

lemma GET_ALLOC_arena: "in_arena st p \<Longrightarrow> GET_ALLOC st p = Inr (mem st p AND 1)"
  by (simp add: GET_ALLOC_def GET_def)

lemma PUT_arena: "in_arena st p \<Longrightarrow> PUT st p v = Inr (st\<lparr>mem := (mem st)(p := v)\<rparr>)"
  by (simp add: PUT_def)

lemma PUT_Inr: "PUT st p v = Inr st' \<longleftrightarrow> in_arena st p \<and> st' = st\<lparr>mem := (mem st)(p := v)\<rparr>"
  by (auto simp: PUT_def)

lemma in_arena_shift:
  "in_arena st p \<Longrightarrow> in_arena st q \<Longrightarrow> p \<le> r \<Longrightarrow> r \<le> q \<Longrightarrow> (r - p) mod 4 = 0 \<Longrightarrow> in_arena st r"
  unfolding in_arena_def by (intro conjI; (linarith | presburger))

lemmas macro_defs = PUT_def GET_def in_arena_def PACK_def
    GET_SIZE_def GET_ALLOC_def HDRP_def FTRP_def NEXT_BLKP_def PREV_BLKP_def Let_def

lemmas run_defs = mm_init_def mem_sbrk_def mem_heap_lo_def mem_heap_hi_def
    mm_malloc_def malloc_newsize_def ALIGN_def malloc_loop.simps heap_blocks.simps
    extend_heap_def extend_size_def coalesce_def place_fit_def split_def mm_free_def macro_defs

section \<open>The search loop, one step at a time\<close>

lemma loop_stop: "GET_SIZE st (HDRP cur) = Inr 0 \<Longrightarrow> malloc_loop n cur st = Inr (None, st)"
  by (subst malloc_loop.simps) simp

lemma loop_skip:
  "GET_SIZE st (HDRP cur) = Inr sz \<Longrightarrow> sz \<noteq> 0 \<Longrightarrow> GET_ALLOC st (HDRP cur) = Inr a \<Longrightarrow>
   \<not> (a = 0 \<and> n \<le> sz) \<Longrightarrow> malloc_loop n cur st = malloc_loop n (cur + uint sz) st"
  by (subst malloc_loop.simps) auto

lemma loop_fit:
  "GET_SIZE st (HDRP cur) = Inr sz \<Longrightarrow> sz \<noteq> 0 \<Longrightarrow> GET_ALLOC st (HDRP cur) = Inr 0 \<Longrightarrow>
   n \<le> sz \<Longrightarrow> malloc_loop n cur st = then_res (place_fit n cur st) (\<lambda>(p, st1). Inr (Some p, st1))"
  by (subst malloc_loop.simps) simp

lemma loop_None_state: "malloc_loop n cur st = Inr (None, st') \<Longrightarrow> st' = st"
proof (induction n cur st rule: malloc_loop.induct)
  case (1 newsize current st)
  from "1.prems" show ?case
    apply (subst (asm) malloc_loop.simps)
    apply (auto simp: then_res_eq_Inr split: sum.splits if_splits intro: "1.IH")
    done
qed

lemma place_fit_result: "place_fit n cur st = Inr (p, st') \<Longrightarrow> p = cur \<and> in_arena st (HDRP cur)"
  by (auto simp: place_fit_def then_res_eq_Inr GET_SIZE_Inr)

lemma loop_Some_arena: "malloc_loop n cur st = Inr (Some p, st') \<Longrightarrow> in_arena st (HDRP p)"
proof (induction n cur st rule: malloc_loop.induct)
  case (1 newsize current st)
  from "1.prems" show ?case
    apply (subst (asm) malloc_loop.simps)
    apply (auto simp: then_res_eq_Inr split: sum.splits if_splits dest: place_fit_result intro: "1.IH")
    done
qed

lemma coalesce_result:
  "coalesce bp st = Inr (r, st') \<Longrightarrow> r = bp \<or> in_arena st (HDRP r)"
  by (auto simp: coalesce_def Let_def then_res_eq_Inr GET_ALLOC_Inr split: if_splits)

lemma extend_heap_grown_nonnull:
  assumes "extend_size n st = Inr k" "mem_sbrk (sint k) st = (Some b, st0)"
    and "extend_heap n st = Inr (r, st')" and "0 \<le> mem_heap st"
  shows "r \<noteq> 0"
proof -
  from assms(2) have st0: "st0 = st\<lparr>mem_brk := mem_brk st + sint k\<rparr>"
    by (auto simp: mem_sbrk_def split: if_splits)
  from assms(1-3) obtain st1 st3 where 1: "PUT st0 (HDRP b) (PACK k 0) = Inr st1"
      and 3: "coalesce b st3 = Inr (r, st')" and "mem_heap st3 = mem_heap st" "mem_max_addr st3 = mem_max_addr st"
    by (auto simp: extend_heap_def then_res_eq_Inr PUT_Inr st0)
  then have "in_arena st (HDRP b)" "r = b \<or> in_arena st (HDRP r)"
    using coalesce_result [OF 3] by (auto simp: PUT_Inr st0 in_arena_def)
  with assms(4) show ?thesis
    by (auto simp: in_arena_def HDRP_def)
qed

section \<open>The concrete heaps are what the operations produce\<close>

lemma init_heap_eval: "mm_init zero_arena = Inr (0, init_heap)"
  by (simp add: zero_arena_def init_heap_def run_defs fun_eq_iff)

lemma one_block_heap_eval: "mm_malloc 16 init_heap = Inr (4112, one_block_heap)"
  by (simp add: init_heap_def one_block_heap_def run_defs fun_eq_iff)

lemma freed_heap_eval: "mm_free 4112 one_block_heap = Inr freed_heap"
  by (simp add: freed_heap_def one_block_heap_def run_defs fun_eq_iff)

lemma full_heap_eval:
  "mm_init (zero_arena\<lparr>mem_max_addr := 4112\<rparr>) = Inr (0, full_heap)"
  by (simp add: zero_arena_def full_heap_def run_defs fun_eq_iff)

lemma free_order_run_eval: "free_order_run = Inr (4112, 4136, succ_free_heap)"
  by (simp add: free_order_run_def zero_arena_def succ_free_heap_def run_defs fun_eq_iff)

lemma main_run_eval: "main_run = Inr (4112, 4112, free_tail_heap)"
  by (simp add: main_run_def zero_arena_def free_tail_heap_def run_defs fun_eq_iff)

lemma zero_size_run_eval: "zero_size_run = Inr stale_tag_heap"
  by (simp add: zero_size_run_def zero_arena_def stale_tag_heap_def run_defs fun_eq_iff)

section \<open>A run from an empty heap at any address\<close>

text \<open>
  The first operations of \<^verbatim>\<open>main\<close>, for an arena at any address \<open>L\<close>, of any size
  and with any content.
\<close>

lemma init_run:
  assumes "mem_brk st = mem_heap st" "mem_heap st + 16 \<le> mem_max_addr st"
  shows "mm_init st = Inr (0, st\<lparr>mem := (mem st)(mem_heap st := 0, mem_heap st + 4 := 9,
      mem_heap st + 8 := 9, mem_heap st + 12 := 1), mem_brk := mem_heap st + 16,
      heap_startp := mem_heap st + 8\<rparr>)"
  using assms by (simp add: mm_init_def mem_sbrk_def mem_heap_lo_def macro_defs)

lemma init_fail:
  assumes "mem_brk st = mem_heap st" "\<not> mem_heap st + 16 \<le> mem_max_addr st"
  shows "mm_init st = Inr (- 1, st)"
  using assms by (simp add: mm_init_def mem_sbrk_def mem_heap_lo_def macro_defs)

lemma fresh_loop:
  assumes st_def: "st = st0\<lparr>mem := (mem st0)(L := 0, L + 4 := 9, L + 8 := 9, L + 12 := 1),
     mem_brk := L + 16, heap_startp := L + 8\<rparr>"
    and L: "mem_heap st0 = L" and a: "L + 16 \<le> mem_max_addr st0" 
  shows "malloc_loop n (heap_startp st) st = Inr (None, st)"
proof -
  have "malloc_loop n (L + 8) st = malloc_loop n (L + 8 + uint (8 :: 32 word)) st"
    using a L by (intro loop_skip [where a = 1]) (simp_all add: macro_defs st_def)
  also have "L + 8 + uint (8 :: 32 word) = L + 16" by simp
  also have "malloc_loop n (L + 16) st = Inr (None, st)"
    using a L by (intro loop_stop) (simp_all add: macro_defs st_def)
  finally show ?thesis
    by (simp add: st_def)
qed

lemma fresh_extend_size:
  assumes st_def: "st = st0\<lparr>mem := (mem st0)(L := 0, L + 4 := 9, L + 8 := 9, L + 12 := 1),
     mem_brk := L + 16, heap_startp := L + 8\<rparr>"
    and L: "mem_heap st0 = L" and a: "L + 16 \<le> mem_max_addr st0" 
  shows "extend_size 24 st = Inr 24"
  using a L by (simp add: extend_size_def mem_heap_hi_def macro_defs st_def)

lemma malloc16_run:
  assumes st_def: "st = st0\<lparr>mem := (mem st0)(L := 0, L + 4 := 9, L + 8 := 9, L + 12 := 1),
     mem_brk := L + 16, heap_startp := L + 8\<rparr>"
    and L: "mem_heap st0 = L" and a: "L + 44 \<le> mem_max_addr st0" and nz: "L + 16 \<noteq> 0"
  shows "mm_malloc 16 st = Inr (L + 16, st\<lparr>mem := (mem st)(L + 12 := 25, L + 32 := 25, L + 40 := 1), mem_brk := L + 40\<rparr>)"
proof -
  from a have a16: "L + 16 \<le> mem_max_addr st0" by simp
  have loop: "malloc_loop 24 (heap_startp st) st = Inr (None, st)"
    by (rule fresh_loop [OF st_def L a16])
  have e: "extend_size 24 st = Inr 24"
    by (rule fresh_extend_size [OF st_def L a16])
  have x: "extend_heap 24 st = Inr (L + 16, st\<lparr>mem := (mem st)(L + 12 := 24, L + 32 := 24, L + 40 := 1), mem_brk := L + 40\<rparr>)"
    by (simp add: extend_heap_def e)
      (use a L in \<open>simp add: mem_sbrk_def coalesce_def macro_defs st_def\<close>;
       intro heap_state.equality ext; simp)
  show ?thesis
    by (simp add: mm_malloc_def malloc_newsize_def ALIGN_def loop x nz)
      (use a L in \<open>simp add: macro_defs st_def\<close>; intro heap_state.equality ext; simp)
qed

lemma malloc16_no_room:
  assumes st_def: "st = st0\<lparr>mem := (mem st0)(L := 0, L + 4 := 9, L + 8 := 9, L + 12 := 1),
     mem_brk := L + 16, heap_startp := L + 8\<rparr>"
    and L: "mem_heap st0 = L" and a: "L + 16 \<le> mem_max_addr st0" and b: "\<not> L + 44 \<le> mem_max_addr st0"
  shows "mm_malloc 16 st = Inl OutOfArena \<or> mm_malloc 16 st = Inr (0, st)"
proof -
  have loop: "malloc_loop 24 (heap_startp st) st = Inr (None, st)"
    by (rule fresh_loop [OF st_def L a])
  have e: "extend_size 24 st = Inr 24"
    by (rule fresh_extend_size [OF st_def L a])
  have x: "extend_heap 24 st = Inl OutOfArena \<or> extend_heap 24 st = Inr (0, st)"
    by (simp add: extend_heap_def e)
      (use a b L in \<open>simp add: mem_sbrk_def coalesce_def macro_defs st_def\<close>)
  then show ?thesis
    by (auto simp add: mm_malloc_def malloc_newsize_def ALIGN_def loop)
qed

lemma free16_run:
  assumes st_def: "st = st0\<lparr>mem := (mem st0)(L := 0, L + 4 := 9, L + 8 := 9, L + 12 := 25, L + 32 := 25, L + 40 := 1),
     mem_brk := L + 40, heap_startp := L + 8\<rparr>"
    and L: "mem_heap st0 = L" and a: "L + 44 \<le> mem_max_addr st0"
  shows "mm_free (L + 16) st = Inr (st\<lparr>mem := (mem st)(L + 12 := 24, L + 32 := 24)\<rparr>)"
  using a L by (simp add: mm_free_def coalesce_def macro_defs st_def; intro heap_state.equality ext; simp)

lemma malloc8_run:
  assumes st_def: "st = st0\<lparr>mem := (mem st0)(L := 0, L + 4 := 9, L + 8 := 9, L + 12 := 24, L + 32 := 24, L + 40 := 1),
     mem_brk := L + 40, heap_startp := L + 8\<rparr>"
    and L: "mem_heap st0 = L" and a: "L + 44 \<le> mem_max_addr st0"
  shows "mm_malloc 8 st = Inr (L + 16, st\<lparr>mem := (mem st)(L + 12 := 17, L + 24 := 17, L + 28 := 8, L + 32 := 8)\<rparr>)"
proof -
  have "malloc_loop 16 (L + 8) st = malloc_loop 16 (L + 8 + uint (8 :: 32 word)) st"
    using a L by (intro loop_skip [where a = 1]) (simp_all add: macro_defs st_def)
  also have "L + 8 + uint (8 :: 32 word) = L + 16" by simp
  also have "malloc_loop 16 (L + 16) st = then_res (place_fit 16 (L + 16) st) (\<lambda>(p, st1). Inr (Some p, st1))"
    using a L by (intro loop_fit [where sz = 24]) (simp_all add: macro_defs st_def)
  also have "place_fit 16 (L + 16) st = Inr (L + 16, st\<lparr>mem := (mem st)(L + 12 := 17, L + 24 := 17, L + 28 := 8, L + 32 := 8)\<rparr>)"
    using a L by (simp add: place_fit_def split_def macro_defs st_def; intro heap_state.equality ext; simp)
  finally have loop: "malloc_loop 16 (heap_startp st) st = Inr (Some (L + 16), st\<lparr>mem := (mem st)(L + 12 := 17, L + 24 := 17, L + 28 := 8, L + 32 := 8)\<rparr>)"
    by (simp add: st_def)
  show ?thesis
    by (simp add: mm_malloc_def malloc_newsize_def ALIGN_def loop)
qed

section \<open>The value of a size\<close>

lemma and_not7_push: "(x :: 'a::len word) AND NOT (mask 3) = push_bit 3 (drop_bit 3 x)"
  by (rule bit_word_eqI) (auto simp: bit_simps)

lemma uint_size_mask: "uint ((x :: 'a::len word) AND - 8) = uint x - uint x mod 8"
proof -
  have "push_bit 3 (drop_bit 3 x) + take_bit 3 x = x"
    by (rule bits_ident)
  then have a: "x AND NOT (mask 3) = x - take_bit 3 x"
    by (simp add: and_not7_push algebra_simps)
  have "uint (take_bit 3 x) = take_bit 3 (uint x)"
    by (rule unsigned_take_bit_eq)
  then have b: "uint (take_bit 3 x) = uint x mod 8"
    by (simp add: take_bit_eq_mod)
  have "uint (take_bit 3 x) \<le> uint x"
    unfolding b by (simp add: zmod_le_nonneg_dividend)
  then have "uint (x - take_bit 3 x) = uint x - uint (take_bit 3 x)"
    by (simp only: uint_sub_lem)
  then show ?thesis
    by (simp only: minus8_mask a b)
qed

lemma spec_needed_size_ge: "8 \<le> spec_needed_size n"
proof -
  have "0 \<le> uint n" by simp
  then show ?thesis unfolding spec_needed_size_def by presburger
qed

lemma malloc_newsize_value:
  assumes "spec_needed_size n < 2 ^ 32"
  shows "uint (malloc_newsize n) = spec_needed_size n"
proof -
  have n0: "0 \<le> uint n" by simp
  from assms have small: "uint n + 15 < 2 ^ 32 + 8"
    unfolding spec_needed_size_def by (simp; presburger)
  have "uint (n + 8 + 7) = uint n + 15"
    using small n0 by (simp add: uint_word_ariths take_bit_int_eq_self)
  then have "uint (ALIGN (n + 8)) = uint n + 15 - (uint n + 15) mod 8"
    unfolding ALIGN_def by (simp add: uint_size_mask)
  also have "\<dots> = spec_needed_size n"
    unfolding spec_needed_size_def by presburger
  finally have v: "uint (ALIGN (n + 8)) = spec_needed_size n" .
  have "uint (malloc_newsize n) = take_bit 32 (uint (ALIGN (n + 8)))"
    unfolding malloc_newsize_def by (simp add: unsigned_ucast_eq unsigned_take_bit_eq)
  also have "\<dots> = spec_needed_size n"
    unfolding v using assms spec_needed_size_ge [of n] by (intro take_bit_int_eq_self) simp_all
  finally show ?thesis .
qed

lemma aligned_iff: "(x :: 32 word) AND 7 = 0 \<longleftrightarrow> uint x mod 8 = 0"
proof -
  have t: "x AND 7 = take_bit 3 x"
    by (simp add: take_bit_eq_mask seven_mask)
  have "uint (take_bit 3 x) = take_bit 3 (uint x)"
    by (rule unsigned_take_bit_eq)
  also have "\<dots> = uint x mod 8"
    by (simp add: take_bit_eq_mod)
  finally have "uint (x AND 7) = uint x mod 8"
    by (simp only: t)
  then show ?thesis
    by (simp add: uint_0_iff [symmetric])
qed

lemma aligned_diff:
  assumes "a AND 7 = 0" "b AND 7 = 0" shows "(a - b) AND 7 = (0 :: 32 word)"
proof -
  from assms have "uint a mod 8 = 0" "uint b mod 8 = 0"
    by (simp_all add: aligned_iff)
  then have "(uint a - uint b) mod 8 = 0"
    by presburger
  moreover have "((uint a - uint b) mod 4294967296) mod 8 = (uint a - uint b) mod 8"
    by (rule mod_mod_cancel) simp
  ultimately have "((uint a - uint b) mod 4294967296) mod 8 = 0"
    by simp
  then show ?thesis
    by (simp add: aligned_iff uint_word_ariths)
qed

lemma GET_SIZE_aligned: "GET_SIZE st p = Inr sz \<Longrightarrow> sz AND 7 = 0"
  by (auto simp: GET_SIZE_Inr)

section \<open>Placing a block in a free block\<close>

lemma place_fit_exact:
  assumes hdr: "GET_SIZE st (HDRP cur) = Inr sz" and nz: "sz \<noteq> 0"
    and ftr: "in_arena st (cur + uint sz - 8)"
  shows "place_fit sz cur st =
     Inr (cur, st\<lparr>mem := (mem st)(HDRP cur := PACK sz 1, cur + uint sz - 8 := PACK sz 1)\<rparr>)"
proof -
  from hdr have h: "in_arena st (cur - 4)" and al: "sz AND 7 = 0"
    by (auto simp: GET_SIZE_Inr HDRP_def)
  from hdr have hdr': "GET_SIZE st (cur - 4) = Inr sz"
    by (simp add: HDRP_def)
  let ?st2 = "st\<lparr>mem := (mem st)(cur - 4 := PACK sz 1)\<rparr>"
  have 2: "PUT st (cur - 4) (PACK sz 1) = Inr ?st2"
    using h by (simp add: PUT_arena)
  have 3: "FTRP ?st2 cur = Inr (cur + uint sz - 8)"
    using h by (simp add: FTRP_def HDRP_def GET_SIZE_arena PACK_1_size [OF al])
  show ?thesis
    using ftr by (simp add: place_fit_def hdr' HDRP_def 2 3 PUT_arena)
qed

lemma place_fit_split:
  assumes hdr: "GET_SIZE st (HDRP cur) = Inr sz" and le: "n \<le> sz" and ne: "sz \<noteq> n"
    and nz: "n \<noteq> 0" and al: "n AND 7 = 0"
    and ftr: "in_arena st (cur + uint sz - 8)"
  shows "place_fit n cur st =
     Inr (cur, st\<lparr>mem := (mem st)(HDRP cur := PACK n 1, cur + uint n - 8 := PACK n 1,
        cur + uint n - 4 := PACK (sz - n) 0, cur + uint sz - 8 := PACK (sz - n) 0)\<rparr>)"
proof -
  from hdr have h: "in_arena st (cur - 4)" and sal: "sz AND 7 = 0"
    by (auto simp: GET_SIZE_Inr HDRP_def)
  from hdr have hdr': "GET_SIZE st (cur - 4) = Inr sz"
    by (simp add: HDRP_def)
  let ?r = "sz - n"
  have ral: "?r AND 7 = 0" using sal al by (rule aligned_diff)
  have rnz: "?r \<noteq> 0" using ne by simp
  have n8: "8 \<le> uint n" using al nz by (rule aligned_ge_8)
  have r8: "8 \<le> uint ?r" using ral rnz by (rule aligned_ge_8)
  have nm: "uint n mod 8 = 0" using al by (rule uint_aligned)
  have rm: "uint ?r mod 8 = 0" using ral by (rule uint_aligned)
  have ur: "uint ?r = uint sz - uint n"
    using le by (simp add: uint_sub_lem [symmetric] word_le_def)
  have nn: "PACK n 1 AND - 8 = n" using al by (rule PACK_1_size)
  have rr: "?r AND - 8 = ?r" using ral by (rule mask_idem)
  have a1: "in_arena st (cur + uint n - 8)"
    using h ftr n8 r8 ur nm by (intro in_arena_shift [OF h ftr]) (simp; presburger)+
  have a2: "in_arena st (cur + uint n - 4)"
    using h ftr n8 r8 ur nm by (intro in_arena_shift [OF h ftr]) (simp; presburger)+
  let ?s1 = "st\<lparr>mem := (mem st)(cur - 4 := PACK n 1)\<rparr>"
  let ?s2 = "st\<lparr>mem := (mem st)(cur - 4 := PACK n 1, cur + uint n - 8 := PACK n 1)\<rparr>"
  let ?s3 = "st\<lparr>mem := (mem st)(cur - 4 := PACK n 1, cur + uint n - 8 := PACK n 1,
      cur + uint n - 4 := ?r)\<rparr>"
  let ?s4 = "st\<lparr>mem := (mem st)(cur - 4 := PACK n 1, cur + uint n - 8 := PACK n 1,
      cur + uint n - 4 := ?r, cur + uint sz - 8 := ?r)\<rparr>"
  have 1: "PUT st (cur - 4) (PACK n 1) = Inr ?s1"
    using h by (simp add: PUT_arena)
  have 2: "FTRP ?s1 cur = Inr (cur + uint n - 8)"
    using h by (simp add: FTRP_def HDRP_def GET_SIZE_arena nn)
  have 3: "PUT ?s1 (cur + uint n - 8) (PACK n 1) = Inr ?s2"
    using a1 by (simp add: PUT_arena)
  have 4: "NEXT_BLKP ?s2 cur = Inr (cur + uint n)"
    using h n8 by (simp add: NEXT_BLKP_def HDRP_def GET_SIZE_arena nn)
  have 5: "PUT ?s2 (cur + uint n - 4) ?r = Inr ?s3"
    using a2 by (simp add: PUT_arena)
  have 6: "NEXT_BLKP ?s3 cur = Inr (cur + uint n)"
    using h n8 by (simp add: NEXT_BLKP_def HDRP_def GET_SIZE_arena nn)
  have 7: "FTRP ?s3 (cur + uint n) = Inr (cur + uint sz - 8)"
    using a2 by (simp add: FTRP_def HDRP_def GET_SIZE_arena rr ur)
  have 8: "PUT ?s3 (cur + uint sz - 8) ?r = Inr ?s4"
    using ftr by (simp add: PUT_arena)
  define s4 where "s4 = ?s4"
  have sp: "split cur n st = Inr s4"
    by (simp add: split_def hdr' Let_def HDRP_def 1 2 3 4 5 6 7 8 s4_def)
  have ar: "in_arena s4 = in_arena st"
    by (simp add: s4_def fun_eq_iff)
  let ?s5 = "s4\<lparr>mem := (mem s4)(cur - 4 := PACK n 1)\<rparr>"
  have 9: "PUT s4 (cur - 4) (PACK n 1) = Inr ?s5"
    using h by (simp add: PUT_arena ar)
  have 10: "FTRP ?s5 cur = Inr (cur + uint n - 8)"
    using h by (simp add: FTRP_def HDRP_def GET_SIZE_arena nn ar)
  have 11: "PUT ?s5 (cur + uint n - 8) (PACK n 1) =
      Inr (s4\<lparr>mem := (mem s4)(cur - 4 := PACK n 1, cur + uint n - 8 := PACK n 1)\<rparr>)"
    using a1 by (simp add: PUT_arena ar)
  have "place_fit n cur st =
      Inr (cur, s4\<lparr>mem := (mem s4)(cur - 4 := PACK n 1, cur + uint n - 8 := PACK n 1)\<rparr>)"
    using ne by (simp add: place_fit_def hdr sp) (simp add: HDRP_def 9 10 11)
  also have "s4\<lparr>mem := (mem s4)(cur - 4 := PACK n 1, cur + uint n - 8 := PACK n 1)\<rparr> =
      st\<lparr>mem := (mem st)(HDRP cur := PACK n 1, cur + uint n - 8 := PACK n 1,
        cur + uint n - 4 := PACK (sz - n) 0, cur + uint sz - 8 := PACK (sz - n) 0)\<rparr>"
    using n8 r8 ur unfolding s4_def by (intro heap_state.equality ext) (simp_all add: HDRP_def)
  finally show ?thesis .
qed

section \<open>The search along the block sequence\<close>

lemma heap_blocks_arena: "heap_blocks st cur = Some bs \<Longrightarrow> in_arena st (HDRP cur)"
  by (subst (asm) heap_blocks.simps) (auto simp: GET_SIZE_Inr split: sum.splits)

lemma heap_blocks_Cons:
  assumes "heap_blocks st cur = Some (x # xs)"
  shows "x = cur \<and> (\<exists>sz. GET_SIZE st (HDRP cur) = Inr sz \<and> sz \<noteq> 0 \<and>
           heap_blocks st (cur + uint sz) = Some xs)"
  using assms by (subst (asm) heap_blocks.simps) (auto split: sum.splits if_splits)

lemma walk_block_bounds:
  "heap_blocks st cur = Some bs \<Longrightarrow> b \<in> set bs \<Longrightarrow>
   \<exists>sz. GET_SIZE st (HDRP b) = Inr sz \<and> sz \<noteq> 0 \<and> in_arena st (b + uint sz - 8)"
proof (induction bs arbitrary: cur)
  case Nil
  then show ?case by simp
next
  case (Cons x xs)
  from heap_blocks_Cons [OF Cons.prems(1)] obtain sz where x: "x = cur"
    and sz: "GET_SIZE st (HDRP cur) = Inr sz" "sz \<noteq> 0"
    and rest: "heap_blocks st (cur + uint sz) = Some xs"
    by blast
  show ?case
  proof (cases "b = x")
    case True
    from sz have h: "in_arena st (cur - 4)" and al: "sz AND 7 = 0"
      by (auto simp: GET_SIZE_Inr HDRP_def)
    from rest have q: "in_arena st (cur + uint sz - 4)"
      by (auto dest: heap_blocks_arena simp: HDRP_def)
    have "8 \<le> uint sz" using al sz(2) by (rule aligned_ge_8)
    moreover have "uint sz mod 8 = 0" using al by (rule uint_aligned)
    ultimately have "in_arena st (cur + uint sz - 8)"
      by (intro in_arena_shift [OF h q]) (simp; presburger)+
    with sz True x show ?thesis by auto
  next
    case False
    with Cons.prems(2) have "b \<in> set xs" by simp
    with rest show ?thesis by (rule Cons.IH)
  qed
qed

lemma fits_iff:
  "fits st (uint n) b \<longleftrightarrow>
     GET_ALLOC st (HDRP b) = Inr 0 \<and> (\<exists>sz. GET_SIZE st (HDRP b) = Inr sz \<and> n \<le> sz)"
  by (auto simp: fits_def GET_def GET_ALLOC_def GET_SIZE_def word_le_def)

lemma loop_first_fit:
  "heap_blocks st cur = Some bs \<Longrightarrow> find (fits st (uint n)) bs = Some b \<Longrightarrow>
   malloc_loop n cur st = then_res (place_fit n b st) (\<lambda>(p, st1). Inr (Some p, st1))"
proof (induction bs arbitrary: cur)
  case Nil
  then show ?case by simp
next
  case (Cons x xs)
  from heap_blocks_Cons [OF Cons.prems(1)] obtain sz where x: "x = cur"
    and sz: "GET_SIZE st (HDRP cur) = Inr sz" "sz \<noteq> 0"
    and rest: "heap_blocks st (cur + uint sz) = Some xs"
    by blast
  from sz(1) obtain a where a: "GET_ALLOC st (HDRP cur) = Inr a"
    by (auto simp: GET_SIZE_Inr GET_ALLOC_Inr)
  show ?case
  proof (cases "fits st (uint n) cur")
    case True
    with Cons.prems(2) x have "b = cur" by simp
    moreover from True sz a have "a = 0" "n \<le> sz" by (auto simp: fits_iff)
    ultimately show ?thesis using sz a by (simp add: loop_fit)
  next
    case False
    with Cons.prems(2) x have f: "find (fits st (uint n)) xs = Some b" by simp
    from False sz a have "\<not> (a = 0 \<and> n \<le> sz)" by (auto simp: fits_iff)
    then have "malloc_loop n cur st = malloc_loop n (cur + uint sz) st"
      using sz a by (intro loop_skip)
    with Cons.IH [OF rest f] show ?thesis by simp
  qed
qed

lemma find_SomeD: "find P xs = Some x \<Longrightarrow> x \<in> set xs \<and> P x"
  by (induction xs) (auto split: if_splits)

lemma first_fit_placed:
  assumes walk: "heap_blocks st (heap_startp st) = Some (heap_startp st # bs)"
    and prologue: "\<not> is_free st (heap_startp st)"
    and first: "find (fits st (spec_needed_size n)) bs = Some b"
  shows "\<exists>sz. GET_SIZE st (HDRP b) = Inr sz \<and> sz \<noteq> 0 \<and> in_arena st (b + uint sz - 8) \<and>
      malloc_newsize n \<le> sz \<and> malloc_newsize n \<noteq> 0 \<and>
      uint (malloc_newsize n) = spec_needed_size n \<and>
      mm_malloc n st = then_res (place_fit (malloc_newsize n) b st) Inr"
proof -
  let ?n = "malloc_newsize n"
  from find_SomeD [OF first] have mem: "b \<in> set (heap_startp st # bs)"
    and fit: "fits st (spec_needed_size n) b"
    by simp_all
  from walk_block_bounds [OF walk mem] obtain sz where sz: "GET_SIZE st (HDRP b) = Inr sz"
    "sz \<noteq> 0" "in_arena st (b + uint sz - 8)"
    by blast
  from fit sz(1) have le: "spec_needed_size n \<le> uint sz"
    by (auto simp: fits_def GET_def GET_SIZE_def split: if_splits)
  moreover have "uint sz < 2 ^ 32"
    using uint_bounded [of sz] by simp
  ultimately have v: "uint ?n = spec_needed_size n"
    by (intro malloc_newsize_value) simp
  from v le have nle: "?n \<le> sz" by (simp add: word_le_def)
  from v spec_needed_size_ge [of n] have nnz: "?n \<noteq> 0" by auto
  from prologue have "\<not> fits st (uint ?n) (heap_startp st)"
    by (auto simp: fits_iff is_free_def)
  with first v have "find (fits st (uint ?n)) (heap_startp st # bs) = Some b"
    by simp
  from loop_first_fit [OF walk this]
  have "mm_malloc n st = then_res (place_fit ?n b st) Inr"
    by (cases "place_fit ?n b st") (auto simp: mm_malloc_def Let_def)
  with sz nle nnz v show ?thesis by blast
qed

section \<open>The freed heap\<close>

lemma freed_heap_blocks:
  "heap_blocks freed_heap (heap_startp freed_heap) = Some (heap_startp freed_heap # [4112])"
  by (simp add: freed_heap_def heap_blocks.simps macro_defs)

lemma freed_heap_prologue: "\<not> is_free freed_heap (heap_startp freed_heap)"
  by (simp add: freed_heap_def is_free_def macro_defs)

lemma freed_heap_fit8: "find (fits freed_heap (spec_needed_size 8)) [4112] = Some 4112"
  by (simp add: freed_heap_def fits_def spec_needed_size_def macro_defs)

lemma freed_heap_fit16: "find (fits freed_heap (spec_needed_size 16)) [4112] = Some 4112"
  by (simp add: freed_heap_def fits_def spec_needed_size_def macro_defs)

lemma freed_heap_size: "GET_SIZE freed_heap (HDRP 4112) = Inr 24"
  by (simp add: freed_heap_def macro_defs)

section \<open>First fit\<close>

text \<open>
  C6: for every heap state containing at least one free block whose size is at least the
  needed (overhead-added, aligned) size, allocate returns the payload of the first such
  free block in address order, scanning from just after the prologue toward the epilogue,
  without growing the heap. The block sequence is the one the traversal of the source
  gives from \<open>heap_startp\<close>: the prologue, which is not free, and then \<open>bs\<close>, up to a
  header of size 0; \<open>b\<close> is the first block of \<open>bs\<close> that fits the needed size.
\<close>


theorem first_fit_returned:
  assumes walk: "heap_blocks st (heap_startp st) = Some (heap_startp st # bs)"
    and prologue: "\<not> is_free st (heap_startp st)"
    and first: "find (fits st (spec_needed_size n)) bs = Some b"
  shows "\<exists>st'. mm_malloc n st = Inr (b, st') \<and> mem_brk st' = mem_brk st"
proof -
  from first_fit_placed [OF assms] obtain sz where sz: "GET_SIZE st (HDRP b) = Inr sz"
    "sz \<noteq> 0" "in_arena st (b + uint sz - 8)" "malloc_newsize n \<le> sz" "malloc_newsize n \<noteq> 0"
    and run: "mm_malloc n st = then_res (place_fit (malloc_newsize n) b st) Inr"
    by blast
  show ?thesis
  proof (cases "sz = malloc_newsize n")
    case True
    from place_fit_exact [OF sz(1-3)] True run show ?thesis by simp
  next
    case False
    from place_fit_split [OF sz(1) sz(4) False sz(5) newsize_aligned sz(3)] run
    show ?thesis by simp
  qed
qed

theorem first_fit_returned_witness:
  "heap_blocks freed_heap (heap_startp freed_heap) = Some (heap_startp freed_heap # [4112]) \<and>
   \<not> is_free freed_heap (heap_startp freed_heap) \<and>
   find (fits freed_heap (spec_needed_size 8)) [4112] = Some 4112 \<and>
   (\<exists>st'. mm_malloc 8 freed_heap = Inr (4112, st') \<and> mem_brk st' = mem_brk freed_heap)"
  using first_fit_returned [OF freed_heap_blocks freed_heap_prologue freed_heap_fit8]
    freed_heap_blocks freed_heap_prologue freed_heap_fit8 by simp

section \<open>Splitting\<close>

lemma freed_heap_malloc8_tail: "mm_malloc 8 freed_heap = Inr (4112, free_tail_heap)"
  by (simp add: freed_heap_def free_tail_heap_def run_defs fun_eq_iff)

text \<open>
  C5, as the specification has it: when the first-fit free block exceeds the needed size
  by less than one minimum block size, allocate takes the whole block without splitting,
  and allocate never creates a free block smaller than the minimum block size. The source
  has no such threshold: \<^verbatim>\<open>mm_malloc\<close> splits whenever the size of the block differs
  from the needed size. In \<open>freed_heap\<close> the first-fit block for a request of 8 bytes is
  the free block at 4112, of 24 bytes; the needed size is 16 and the excess, 8, is less
  than the minimum block size. \<^verbatim>\<open>mm_malloc(8)\<close> does not take the whole block: the block
  at 4112 becomes an allocated block of 16 bytes, and a free block of 8 bytes, header and
  footer with no payload, is created at 4128.
\<close>

theorem split_below_minimum_counterexample:
  "heap_blocks freed_heap (heap_startp freed_heap) = Some (heap_startp freed_heap # [4112]) \<and>
   find (fits freed_heap (spec_needed_size 8)) [4112] = Some 4112 \<and>
   GET_SIZE freed_heap (HDRP 4112) = Inr 24 \<and>
   spec_needed_size 8 = 16 \<and>
   uint (24 :: 32 word) - spec_needed_size 8 < spec_min_block_size \<and>
   mm_malloc 8 freed_heap = Inr (4112, free_tail_heap) \<and>
   GET free_tail_heap (HDRP 4112) = Inr (PACK 16 1) \<and>
   NEXT_BLKP free_tail_heap 4112 = Inr 4128 \<and>
   GET free_tail_heap (HDRP 4128) = Inr (PACK 8 0) \<and>
   uint (8 :: 32 word) < spec_min_block_size"
proof -
  have sizes: "spec_needed_size 8 = 16"
    "uint (24 :: 32 word) - spec_needed_size 8 < spec_min_block_size"
    "uint (8 :: 32 word) < spec_min_block_size"
    by (simp_all add: spec_needed_size_def spec_min_block_size_def)
  have after: "GET free_tail_heap (HDRP 4112) = Inr (PACK 16 1)"
    "NEXT_BLKP free_tail_heap 4112 = Inr 4128"
    "GET free_tail_heap (HDRP 4128) = Inr (PACK 8 0)"
    by (simp_all add: free_tail_heap_def macro_defs)
  from sizes after freed_heap_blocks freed_heap_fit8 freed_heap_size freed_heap_malloc8_tail
  show ?thesis by blast
qed

text \<open>
  C5, amended: for every allocate request whose search finds a first-fit free block,
  allocate takes the whole block without splitting exactly when the size of the block
  equals the needed size: then only the header and the footer of the block change, to
  its own size with the allocated bit. Whenever the block is larger, whatever the excess,
  allocate splits it: the block is cut to the needed size and marked allocated, and the
  excess, which is at least 8 bytes (a header and a footer) and may be less than the
  minimum block size, becomes a free block right after it; no other word changes.
\<close>

theorem split_on_any_excess:
  assumes walk: "heap_blocks st (heap_startp st) = Some (heap_startp st # bs)"
    and prologue: "\<not> is_free st (heap_startp st)"
    and first: "find (fits st (spec_needed_size n)) bs = Some b"
    and size: "GET_SIZE st (HDRP b) = Inr sz"
  shows "uint (malloc_newsize n) = spec_needed_size n \<and>
     (uint sz = spec_needed_size n \<longrightarrow>
        mm_malloc n st = Inr (b, st\<lparr>mem := (mem st)
          (HDRP b := PACK sz 1, b + uint sz - 8 := PACK sz 1)\<rparr>)) \<and>
     (uint sz \<noteq> spec_needed_size n \<longrightarrow>
        8 \<le> uint sz - spec_needed_size n \<and>
        uint (sz - malloc_newsize n) = uint sz - spec_needed_size n \<and>
        mm_malloc n st = Inr (b, st\<lparr>mem := (mem st)
          (HDRP b := PACK (malloc_newsize n) 1,
           b + spec_needed_size n - 8 := PACK (malloc_newsize n) 1,
           b + spec_needed_size n - 4 := PACK (sz - malloc_newsize n) 0,
           b + uint sz - 8 := PACK (sz - malloc_newsize n) 0)\<rparr>))"
proof -
  let ?n = "malloc_newsize n"
  from first_fit_placed [OF walk prologue first] size
  have sz: "sz \<noteq> 0" "in_arena st (b + uint sz - 8)" "?n \<le> sz" "?n \<noteq> 0"
    and v: "uint ?n = spec_needed_size n"
    and run: "mm_malloc n st = then_res (place_fit ?n b st) Inr"
    by auto
  have sal: "sz AND 7 = 0" using size by (rule GET_SIZE_aligned)
  have eq: "sz = ?n \<longleftrightarrow> uint sz = spec_needed_size n"
    using v by (auto simp: word_uint_eq_iff)
  show ?thesis
  proof (cases "sz = ?n")
    case True
    from place_fit_exact [OF size sz(1,2)] True run
    have "mm_malloc n st = Inr (b, st\<lparr>mem := (mem st)
             (HDRP b := PACK sz 1, b + uint sz - 8 := PACK sz 1)\<rparr>)"
      by simp
    with True eq v show ?thesis by simp
  next
    case False
    have ral: "(sz - ?n) AND 7 = 0" using sal newsize_aligned by (rule aligned_diff)
    from False have "sz - ?n \<noteq> 0" by simp
    with ral have r8: "8 \<le> uint (sz - ?n)" by (rule aligned_ge_8)
    have ur: "uint (sz - ?n) = uint sz - uint ?n"
      using sz(3) by (simp add: uint_sub_lem [symmetric] word_le_def)
    from place_fit_split [OF size sz(3) False sz(4) newsize_aligned sz(2)] run
    have "mm_malloc n st = Inr (b, st\<lparr>mem := (mem st)(HDRP b := PACK ?n 1,
        b + uint ?n - 8 := PACK ?n 1, b + uint ?n - 4 := PACK (sz - ?n) 0,
        b + uint sz - 8 := PACK (sz - ?n) 0)\<rparr>)"
      by simp
    with False eq v r8 ur show ?thesis by simp
  qed
qed

theorem split_on_any_excess_witness:
  "heap_blocks freed_heap (heap_startp freed_heap) = Some (heap_startp freed_heap # [4112]) \<and>
   \<not> is_free freed_heap (heap_startp freed_heap) \<and>
   GET_SIZE freed_heap (HDRP 4112) = Inr 24 \<and>
   find (fits freed_heap (spec_needed_size 16)) [4112] = Some 4112 \<and>
   uint (24 :: 32 word) = spec_needed_size 16 \<and>
   mm_malloc 16 freed_heap = Inr (4112, freed_heap\<lparr>mem := (mem freed_heap)
     (HDRP 4112 := PACK 24 1, 4112 + uint (24 :: 32 word) - 8 := PACK 24 1)\<rparr>) \<and>
   find (fits freed_heap (spec_needed_size 8)) [4112] = Some 4112 \<and>
   uint (24 :: 32 word) \<noteq> spec_needed_size 8 \<and>
   8 \<le> uint (24 :: 32 word) - spec_needed_size 8 \<and>
   mm_malloc 8 freed_heap = Inr (4112, freed_heap\<lparr>mem := (mem freed_heap)
     (HDRP 4112 := PACK (malloc_newsize 8) 1,
      4112 + spec_needed_size 8 - 8 := PACK (malloc_newsize 8) 1,
      4112 + spec_needed_size 8 - 4 := PACK (24 - malloc_newsize 8) 0,
      4112 + uint (24 :: 32 word) - 8 := PACK (24 - malloc_newsize 8) 0)\<rparr>)"
proof -
  have e: "uint (24 :: 32 word) = spec_needed_size 16"
    by (simp add: spec_needed_size_def)
  have d: "uint (24 :: 32 word) \<noteq> spec_needed_size 8"
    by (simp add: spec_needed_size_def)
  from split_on_any_excess [OF freed_heap_blocks freed_heap_prologue freed_heap_fit16
      freed_heap_size] e
  have exact: "mm_malloc 16 freed_heap = Inr (4112, freed_heap\<lparr>mem := (mem freed_heap)
     (HDRP 4112 := PACK 24 1, 4112 + uint (24 :: 32 word) - 8 := PACK 24 1)\<rparr>)"
    by blast
  from split_on_any_excess [OF freed_heap_blocks freed_heap_prologue freed_heap_fit8
      freed_heap_size] d
  have cut: "8 \<le> uint (24 :: 32 word) - spec_needed_size 8"
    "mm_malloc 8 freed_heap = Inr (4112, freed_heap\<lparr>mem := (mem freed_heap)
     (HDRP 4112 := PACK (malloc_newsize 8) 1,
      4112 + spec_needed_size 8 - 8 := PACK (malloc_newsize 8) 1,
      4112 + spec_needed_size 8 - 4 := PACK (24 - malloc_newsize 8) 0,
      4112 + uint (24 :: 32 word) - 8 := PACK (24 - malloc_newsize 8) 0)\<rparr>)"
    by blast+
  from exact cut e d freed_heap_blocks freed_heap_prologue freed_heap_size freed_heap_fit16
    freed_heap_fit8
  show ?thesis by blast
qed

section \<open>Coalescing\<close>

text \<open>
  C1, evaluated where the source departs from it: for every heap state in which a
  block's successor block is free, calling free on that block merges it with the free
  successor, the result keeping this block's header position and the successor's footer
  position. \<^verbatim>\<open>coalesce\<close> looks at the predecessor only. In \<open>succ_free_heap\<close> (reached
  by \<open>free_order_run\<close>) the block at 4112 is allocated with 24 bytes and its successor at
  4136 is free with 24 bytes; after \<^verbatim>\<open>mm_free(4112)\<close> the block at 4112 is a free block
  of 24 bytes with its footer at 4128, and the successor is still a free block of its own.
\<close>

theorem free_ignores_free_successor:
  "free_order_run = Inr (4112, 4136, succ_free_heap) \<and>
   GET succ_free_heap (HDRP 4112) = Inr (PACK 24 1) \<and>
   NEXT_BLKP succ_free_heap 4112 = Inr 4136 \<and>
   GET succ_free_heap (HDRP 4136) = Inr (PACK 24 0) \<and>
   mm_free 4112 succ_free_heap = Inr two_free_heap \<and>
   GET two_free_heap (HDRP 4112) = Inr (PACK 24 0) \<and>
   FTRP two_free_heap 4112 = Inr 4128 \<and>
   GET two_free_heap 4128 = Inr (PACK 24 0) \<and>
   GET two_free_heap (HDRP 4136) = Inr (PACK 24 0)"
  by (simp add: free_order_run_eval)
    (simp add: succ_free_heap_def two_free_heap_def run_defs fun_eq_iff)

text \<open>
  C2, evaluated where the source departs from it: for every heap state reachable by a
  sequence of public operations, when each operation returns, no two consecutive blocks
  are both free. After \<^verbatim>\<open>mm_init(); p = mm_malloc(16); q = mm_malloc(16); mm_free(q);
  mm_free(p)\<close> the block sequence is the prologue, \<open>p\<close> and \<open>q\<close>, and \<open>p\<close> and \<open>q\<close>
  are both free.
\<close>

theorem adjacent_free_after_frees:
  "then_res free_order_run (\<lambda>(p, q, s). mm_free p s) = Inr two_free_heap \<and>
   heap_blocks two_free_heap (heap_startp two_free_heap) = Some [4104, 4112, 4136] \<and>
   adjacent_free two_free_heap [4104, 4112, 4136]"
  by (simp add: free_order_run_eval)
    (simp add: succ_free_heap_def two_free_heap_def is_free_def run_defs fun_eq_iff)

section \<open>Growing the heap\<close>

text \<open>
  C4, evaluated where the source departs from it: when the block before the epilogue is
  free, \<^verbatim>\<open>extend_heap\<close> asks the growth primitive for the needed size less the size of
  that block, lays down one free block over the new and the reused bytes, and writes the
  epilogue header immediately after that block. In \<open>free_tail_heap\<close> (reached by
  \<open>main_run\<close>) the last block, at 4128, is free with 8 bytes and ends where the heap's
  last word begins. \<^verbatim>\<open>extend_heap(16)\<close> looks for the last block from
  \<^verbatim>\<open>mem_heap_hi() - 3\<close>, the address of a header, as if it were a payload pointer; it
  finds an allocated block, asks for 16 bytes and not 8, and the merged free block has 24
  bytes. It writes the epilogue header at \<^verbatim>\<open>NEXT_BLKP(bp)\<close>, which is the new end of
  the heap, 4152: the word after the merged block, 4148, still holds 0, and the
  epilogue word lies past \<^verbatim>\<open>mem_heap_hi()\<close>.
\<close>

theorem extend_heap_misses_free_tail:
  "main_run = Inr (4112, 4112, free_tail_heap) \<and>
   heap_blocks free_tail_heap (heap_startp free_tail_heap) = Some [4104, 4112, 4128] \<and>
   GET free_tail_heap (HDRP 4128) = Inr (PACK 8 0) \<and>
   NEXT_BLKP free_tail_heap 4128 = Inr (mem_brk free_tail_heap) \<and>
   extend_size 16 free_tail_heap = Inr 16 \<and>
   extend_heap 16 free_tail_heap = Inr (4128, grown_heap) \<and>
   mem_brk grown_heap = mem_brk free_tail_heap + 16 \<and>
   GET grown_heap (HDRP 4128) = Inr (PACK 24 0) \<and>
   NEXT_BLKP grown_heap 4128 = Inr 4152 \<and>
   GET grown_heap (HDRP 4152) = Inr 0 \<and>
   GET grown_heap 4152 = Inr (PACK 0 1) \<and>
   mem_heap_hi grown_heap = 4151"
  by (simp add: main_run_eval)
    (simp add: free_tail_heap_def grown_heap_def run_defs fun_eq_iff)

section \<open>A request of 0 bytes\<close>

text \<open>
  C9, evaluated where the source departs from it: for every heap state with available
  space, allocate called with requested size 0 returns a non-null, 8-byte-aligned payload
  pointer to an allocated block of total size 8, not a null or error result. In
  \<open>stale_tag_heap\<close> (reached by \<open>zero_size_run\<close>) no free block is left and the growth
  primitive would give the 8 bytes, but \<^verbatim>\<open>extend_heap\<close> takes the word at 4136, a
  stale footer inside the payload of the last block, for the header of a free last block
  of 16 bytes, and \<^verbatim>\<open>assert(size_last < newsize)\<close> fails.
\<close>

theorem malloc_zero_aborts:
  "zero_size_run = Inr stale_tag_heap \<and>
   malloc_newsize 0 = 8 \<and>
   malloc_loop 8 (heap_startp stale_tag_heap) stale_tag_heap = Inr (None, stale_tag_heap) \<and>
   fst (mem_sbrk 8 stale_tag_heap) = Some (mem_brk stale_tag_heap) \<and>
   mm_malloc 0 stale_tag_heap = Inl AssertFailed"
  by (simp add: zero_size_run_eval) (simp add: stale_tag_heap_def run_defs)

section \<open>Out of memory\<close>

text \<open>
  C7: for every heap state and every request size, if the growth primitive fails during an
  allocate that found no fitting free block, allocate returns the null pointer and the
  state, with the size and allocated tags of every block, is unchanged; and allocate
  returns the null pointer only then. The arena is assumed to lie at non-negative
  addresses, so that the null pointer is not the address of a block.
\<close>


theorem malloc_null_iff_growth_fails:
  assumes base: "0 \<le> mem_heap st"
  shows "mm_malloc n st = Inr (0, st') \<longleftrightarrow>
     st' = st \<and> malloc_loop (malloc_newsize n) (heap_startp st) st = Inr (None, st) \<and>
     (\<exists>k. extend_size (malloc_newsize n) st = Inr k \<and> fst (mem_sbrk (sint k) st) = None)"
    (is "?l \<longleftrightarrow> ?r")
proof
  assume ?r
  then obtain k where loop: "malloc_loop (malloc_newsize n) (heap_startp st) st = Inr (None, st)"
    and k: "extend_size (malloc_newsize n) st = Inr k" and f: "fst (mem_sbrk (sint k) st) = None"
    and st': "st' = st"
    by blast
  from f have "mem_sbrk (sint k) st = (None, st)"
    by (simp add: mem_sbrk_def split: if_splits)
  then show ?l
    by (simp add: mm_malloc_def Let_def loop extend_heap_def k st')
next
  assume l: ?l
  let ?n = "malloc_newsize n"
  from l obtain found s0 where loop: "malloc_loop ?n (heap_startp st) st = Inr (found, s0)"
    by (auto simp: mm_malloc_def Let_def then_res_eq_Inr)
  have found: "found = None"
  proof (cases found)
    case (Some c)
    with l loop have "c = 0" by (simp add: mm_malloc_def Let_def)
    moreover from loop Some have "in_arena st (HDRP c)" by (auto dest: loop_Some_arena)
    ultimately show ?thesis using base by (simp add: in_arena_def HDRP_def)
  qed simp
  with loop have s0: "s0 = st" by (auto dest: loop_None_state)
  from l obtain r s1 where x: "extend_heap ?n st = Inr (r, s1)"
    by (auto simp: mm_malloc_def Let_def loop found s0 then_res_eq_Inr)
  then obtain k where k: "extend_size ?n st = Inr k"
    by (auto simp: extend_heap_def then_res_eq_Inr)
  show ?r
  proof (cases "mem_sbrk (sint k) st")
    case (Pair o1 st0)
    show ?thesis
    proof (cases o1)
      case None
      with Pair have "st0 = st" by (auto simp: mem_sbrk_def split: if_splits)
      with Pair None x k have "r = 0" "s1 = st" by (simp_all add: extend_heap_def)
      with l have "st' = st" by (simp add: mm_malloc_def Let_def loop found s0 x)
      with loop found s0 k Pair None show ?thesis by auto
    next
      case (Some b)
      with Pair k x base have "r \<noteq> 0" by (auto dest: extend_heap_grown_nonnull)
      with l have False
        by (auto simp: mm_malloc_def Let_def loop found s0 x then_res_eq_Inr)
      then show ?thesis ..
    qed
  qed
qed

theorem malloc_null_iff_growth_fails_witness:
  "0 \<le> mem_heap full_heap \<and> mm_malloc 16 full_heap = Inr (0, full_heap)"
proof -
  have 1: "0 \<le> mem_heap full_heap"
    by (simp add: full_heap_def)
  have 2: "malloc_loop (malloc_newsize 16) (heap_startp full_heap) full_heap = Inr (None, full_heap)"
    by (simp add: full_heap_def malloc_newsize_def ALIGN_def malloc_loop.simps macro_defs)
  have 3: "extend_size (malloc_newsize 16) full_heap = Inr 24"
    by (simp add: full_heap_def malloc_newsize_def ALIGN_def extend_size_def mem_heap_hi_def macro_defs)
  have 4: "fst (mem_sbrk (sint (24 :: 32 word)) full_heap) = None"
    by (simp add: full_heap_def mem_sbrk_def)
  show ?thesis
    using malloc_null_iff_growth_fails [OF 1, of 16 full_heap] 1 2 3 4 by blast
qed

section \<open>Reuse of a freed block\<close>

text \<open>
  C8: starting from a freshly initialized heap, the sequence
  \<^verbatim>\<open>p = allocate(16); free(p); allocate(8)\<close> makes the final allocate return the same
  payload address as \<open>p\<close>, with no heap growth during that final allocate. This holds for
  an arena at any address, of any size and with any content, as soon as the
  initialization and the first allocation succeed.
\<close>


theorem reuse_freed_block:
  assumes fresh: "mem_brk st = mem_heap st"
    and init: "mm_init st = Inr (0, s1)"
    and m1: "mm_malloc 16 s1 = Inr (p, s2)" and nz: "p \<noteq> 0"
  shows "\<exists>s3 s4. mm_free p s2 = Inr s3 \<and> mm_malloc 8 s3 = Inr (p, s4) \<and> mem_brk s4 = mem_brk s3"
proof -
  define L where "L = mem_heap st"
  have L: "mem_heap st = L" by (simp add: L_def)
  have r16: "L + 16 \<le> mem_max_addr st"
    using init init_fail [OF fresh] L by auto
  have s1: "s1 = st\<lparr>mem := (mem st)(L := 0, L + 4 := 9, L + 8 := 9, L + 12 := 1),
     mem_brk := L + 16, heap_startp := L + 8\<rparr>"
    using init init_run [OF fresh] r16 L by simp
  have r44: "L + 44 \<le> mem_max_addr st"
    using malloc16_no_room [OF s1 L r16] m1 nz by auto
  have pnz: "L + 16 \<noteq> 0"
  proof
    assume z: "L + 16 = 0"
    have "extend_heap 24 s1 = Inr (L + 16, s1\<lparr>mem := (mem s1)(L + 12 := 24, L + 32 := 24, L + 40 := 1), mem_brk := L + 40\<rparr>)"
      by (simp add: extend_heap_def fresh_extend_size [OF s1 L r16])
        (use r44 L in \<open>simp add: mem_sbrk_def coalesce_def macro_defs s1\<close>;
          intro heap_state.equality ext; simp)
    then have "\<exists>s. mm_malloc 16 s1 = Inr (0, s)"
      by (simp add: mm_malloc_def malloc_newsize_def ALIGN_def fresh_loop [OF s1 L r16] z)
    with m1 nz show False by auto
  qed
  from malloc16_run [OF s1 L r44 pnz] m1
  have p: "p = L + 16" and s2: "s2 = s1\<lparr>mem := (mem s1)(L + 12 := 25, L + 32 := 25, L + 40 := 1), mem_brk := L + 40\<rparr>"
    by simp_all
  have s2': "s2 = st\<lparr>mem := (mem st)(L := 0, L + 4 := 9, L + 8 := 9, L + 12 := 25, L + 32 := 25, L + 40 := 1),
     mem_brk := L + 40, heap_startp := L + 8\<rparr>"
    unfolding s2 s1 by (intro heap_state.equality ext; simp)
  define s3 where "s3 = s2\<lparr>mem := (mem s2)(L + 12 := 24, L + 32 := 24)\<rparr>"
  have f: "mm_free p s2 = Inr s3"
    unfolding p s3_def by (rule free16_run [OF s2' L r44])
  have s3': "s3 = st\<lparr>mem := (mem st)(L := 0, L + 4 := 9, L + 8 := 9, L + 12 := 24, L + 32 := 24, L + 40 := 1),
     mem_brk := L + 40, heap_startp := L + 8\<rparr>"
    unfolding s3_def s2' by (intro heap_state.equality ext; simp)
  have "mm_malloc 8 s3 = Inr (p, s3\<lparr>mem := (mem s3)(L + 12 := 17, L + 24 := 17, L + 28 := 8, L + 32 := 8)\<rparr>)"
    unfolding p by (rule malloc8_run [OF s3' L r44])
  with f show ?thesis by simp
qed

theorem reuse_freed_block_witness:
  "mem_brk zero_arena = mem_heap zero_arena \<and> mm_init zero_arena = Inr (0, init_heap) \<and>
   mm_malloc 16 init_heap = Inr (4112, one_block_heap) \<and> (4112 :: int) \<noteq> 0 \<and>
   (\<exists>s3 s4. mm_free 4112 one_block_heap = Inr s3 \<and> mm_malloc 8 s3 = Inr (4112, s4) \<and>
      mem_brk s4 = mem_brk s3)"
proof -
  have 1: "mem_brk zero_arena = mem_heap zero_arena"
    by (simp add: zero_arena_def)
  show ?thesis
    using reuse_freed_block [OF 1 init_heap_eval one_block_heap_eval] 1 init_heap_eval
      one_block_heap_eval by simp
qed

section \<open>The frame of free\<close>

text \<open>
  C10: for every live allocated block whose predecessor block is allocated, free on that
  block's payload pointer writes only that block's header and footer words, setting
  allocated to false with the size unchanged; every other word of the heap is unchanged by
  the call. The block has a size \<open>s\<close> other than 0 and its footer lies in the arena; the
  predecessor is the block that the footer before the header describes, of a size \<open>ps\<close>
  other than 0, and its header says allocated.
\<close>


theorem mm_free_frame:
  assumes hdr: "GET_SIZE st (HDRP p) = Inr s" and snz: "s \<noteq> 0"
    and ftr: "in_arena st (p + uint s - 8)"
    and pft: "GET_SIZE st (p - 8) = Inr ps" and psnz: "ps \<noteq> 0"
    and pal: "GET_ALLOC st (HDRP (p - uint ps)) = Inr a" and anz: "a \<noteq> 0"
  shows "mm_free p st =
           Inr (st\<lparr>mem := (mem st)(HDRP p := PACK s 0, p + uint s - 8 := PACK s 0)\<rparr>)"
proof -
  from hdr have h1: "in_arena st (p - 4)" and s: "s = mem st (p - 4) AND - 8"
    by (simp_all add: GET_SIZE_Inr HDRP_def)
  from pft have h2: "in_arena st (p - 8)" and ps: "ps = mem st (p - 8) AND - 8"
    by (simp_all add: GET_SIZE_Inr)
  from pal have h3: "in_arena st (p - uint ps - 4)" and a: "a = mem st (p - uint ps - 4) AND 1"
    by (simp_all add: GET_ALLOC_Inr HDRP_def)
  have s8: "8 \<le> uint s" using snz by (intro aligned_ge_8) (simp_all add: s)
  have ps8: "8 \<le> uint ps" using psnz by (intro aligned_ge_8) (simp_all add: ps)
  have ss: "s AND - 8 = s" by (rule mask_idem) (simp add: s)
  let ?st1 = "st\<lparr>mem := (mem st)(p - 4 := s)\<rparr>"
  let ?st2 = "st\<lparr>mem := (mem st)(p - 4 := s, p + uint s - 8 := s)\<rparr>"
  have 1: "PUT st (p - 4) s = Inr ?st1"
    using h1 by (simp add: PUT_arena HDRP_def)
  have 2: "FTRP ?st1 p = Inr (p + uint s - 8)"
    using h1 by (simp add: FTRP_def HDRP_def GET_SIZE_arena ss)
  have 3: "PUT ?st1 (p + uint s - 8) s = Inr ?st2"
    using ftr by (simp add: PUT_arena)
  have 4: "coalesce p ?st2 = Inr (p, ?st2)"
    using h2 h3 s8 ps8 anz
    by (simp add: coalesce_def PREV_BLKP_def GET_SIZE_arena GET_ALLOC_arena HDRP_def
        flip: ps a)
  show ?thesis
    using hdr by (simp add: mm_free_def 1 2 3 4 HDRP_def)
qed

theorem mm_free_frame_witness:
  "GET_SIZE one_block_heap (HDRP 4112) = Inr 24 \<and> (24 :: 32 word) \<noteq> 0 \<and>
   in_arena one_block_heap (4112 + uint (24 :: 32 word) - 8) \<and>
   GET_SIZE one_block_heap (4112 - 8) = Inr 8 \<and> (8 :: 32 word) \<noteq> 0 \<and>
   GET_ALLOC one_block_heap (HDRP (4112 - uint (8 :: 32 word))) = Inr 1 \<and> (1 :: 32 word) \<noteq> 0 \<and>
   mm_free 4112 one_block_heap =
     Inr (one_block_heap\<lparr>mem := (mem one_block_heap)
       (HDRP 4112 := PACK 24 0, 4112 + uint (24 :: 32 word) - 8 := PACK 24 0)\<rparr>)"
proof -
  have 1: "GET_SIZE one_block_heap (HDRP 4112) = Inr 24"
    by (simp add: one_block_heap_def macro_defs)
  have 2: "in_arena one_block_heap (4112 + uint (24 :: 32 word) - 8)"
    by (simp add: one_block_heap_def macro_defs)
  have 3: "GET_SIZE one_block_heap (4112 - 8) = Inr 8"
    by (simp add: one_block_heap_def macro_defs)
  have 4: "GET_ALLOC one_block_heap (HDRP (4112 - uint (8 :: 32 word))) = Inr 1"
    by (simp add: one_block_heap_def macro_defs)
  show ?thesis
    using mm_free_frame [OF 1 _ 2 3 _ 4] 1 2 3 4 by simp
qed

end
